theory Spec2Isabelle
  imports Main "HOL-Library.Multiset" "HOL-Library.Log_Nat"
begin

section \<open>Strings as the matcher sees them\<close>

text \<open>
  The matcher of \<^verbatim>\<open>src/lib/speech.ts\<close> works on JavaScript strings. They are modelled
  as \<^typ>\<open>string\<close>, a character being read as the UTF-16 code unit of the same number, so
  the model covers the strings whose code units are all below 256 (Latin-1). Every
  character the punctuation class and the homophone table mention is in that range.
  \<^verbatim>\<open>length\<close> counts code units, as \<^verbatim>\<open>String.prototype.length\<close> does.
\<close>

definition is_punct :: "char \<Rightarrow> bool" where
  \<comment> \<open>the character class \<^verbatim>\<open>[.,!?'"]\<close>\<close>
  "is_punct c \<longleftrightarrow> c \<in> set [CHR ''.'', CHR '','', CHR ''!'', CHR ''?'', CHR 0x27, CHR 0x22]"

definition strip_punct :: "string \<Rightarrow> string" where
  \<comment> \<open>\<^verbatim>\<open>s.replace(/[.,!?'"]/g, '')\<close>\<close>
  "strip_punct s = filter (\<lambda>c. \<not> is_punct c) s"

definition is_space :: "char \<Rightarrow> bool" where
  \<comment> \<open>WhiteSpace and LineTerminator of ECMAScript below 256: TAB, LF, VT, FF, CR, SP, NBSP;
      the set \<^verbatim>\<open>trim\<close> strips and \<^verbatim>\<open>\s\<close> matches\<close>
  "is_space c \<longleftrightarrow> (of_char c :: nat) \<in> set [9, 10, 11, 12, 13, 32, 160]"

definition trim :: "string \<Rightarrow> string" where
  "trim s = rev (dropWhile is_space (rev (dropWhile is_space s)))"

definition lower_char :: "char \<Rightarrow> char" where
  \<comment> \<open>\<^verbatim>\<open>toLowerCase\<close> on one code unit below 256: A-Z and the Latin-1 capitals
      (0xC0-0xDE without the multiplication sign 0xD7) move up by 32\<close>
  "lower_char c =
     (let n = (of_char c :: nat)
      in if (65 \<le> n \<and> n \<le> 90) \<or> (192 \<le> n \<and> n \<le> 222 \<and> n \<noteq> 215)
         then char_of (n + 32) else c)"

definition toLowerCase :: "string \<Rightarrow> string" where
  "toLowerCase s = map lower_char s"

fun split_from :: "bool \<Rightarrow> string \<Rightarrow> string list" where
  \<comment> \<open>\<^verbatim>\<open>s.split(/\s+/)\<close>; the flag says that the previous character was white space, so
      that a run of white space separates once\<close>
  "split_from in_ws [] = [[]]"
| "split_from in_ws (c # cs) =
     (if is_space c then (if in_ws then split_from True cs else [] # split_from True cs)
      else (case split_from False cs of
              [] \<Rightarrow> [[c]]
            | t # ts \<Rightarrow> (c # t) # ts))"

definition split_ws :: "string \<Rightarrow> string list" where
  "split_ws s = split_from False s"

definition clean :: "string \<Rightarrow> string" where
  \<comment> \<open>\<^verbatim>\<open>s.replace(/[.,!?'"]/g, '').trim().toLowerCase()\<close>\<close>
  "clean s = toLowerCase (trim (strip_punct s))"

section \<open>The homophone table\<close>

definition HOMOPHONES :: "string list list" where
  "HOMOPHONES =
    [[''sight'', ''site'', ''cite''],
     [''their'', ''there'', ''they'' @ [CHR 0x27] @ ''re''],
     [''to'', ''too'', ''two''],
     [''your'', ''you'' @ [CHR 0x27] @ ''re''],
     [''its'', ''it'' @ [CHR 0x27] @ ''s''],
     [''know'', ''no''],
     [''knew'', ''new''],
     [''knight'', ''night''],
     [''knot'', ''not''],
     [''write'', ''right'', ''rite''],
     [''read'', ''red''],
     [''hear'', ''here''],
     [''sea'', ''see''],
     [''sun'', ''son''],
     [''one'', ''won''],
     [''be'', ''bee''],
     [''by'', ''buy'', ''bye''],
     [''for'', ''four'', ''fore''],
     [''ate'', ''eight''],
     [''wait'', ''weight'']]"

type_synonym hmap = "string \<rightharpoonup> string set"

definition add_other :: "string \<Rightarrow> string \<Rightarrow> hmap \<Rightarrow> hmap" where
  \<comment> \<open>\<^verbatim>\<open>if (other !== word) homophoneMap.get(word)!.add(other)\<close>; the entry exists, the
      enclosing loop has just made sure of it\<close>
  "add_other word other m =
     (if other \<noteq> word
      then (case m word of None \<Rightarrow> m | Some S \<Rightarrow> m(word \<mapsto> insert other S))
      else m)"

definition add_word :: "string list \<Rightarrow> string \<Rightarrow> hmap \<Rightarrow> hmap" where
  \<comment> \<open>the body of \<^verbatim>\<open>for (const word of lowerGroup)\<close>\<close>
  "add_word lowerGroup word m =
     fold (add_other word) lowerGroup (if m word = None then m(word \<mapsto> {}) else m)"

definition add_group :: "string list \<Rightarrow> hmap \<Rightarrow> hmap" where
  \<comment> \<open>the body of \<^verbatim>\<open>for (const group of HOMOPHONES)\<close>\<close>
  "add_group grp m =
     (let lowerGroup = map toLowerCase grp in fold (add_word lowerGroup) lowerGroup m)"

definition build_map :: "string list list \<Rightarrow> hmap" where
  "build_map groups = fold add_group groups Map.empty"

definition homophoneMap :: hmap where
  "homophoneMap = build_map HOMOPHONES"

definition areHomophones :: "string \<Rightarrow> string \<Rightarrow> bool" where
  "areHomophones word1 word2 =
     (let lower1 = toLowerCase word1; lower2 = toLowerCase word2
      in if lower1 = lower2 then True
         else (case homophoneMap lower1 of None \<Rightarrow> False | Some homophones \<Rightarrow> lower2 \<in> homophones))"

section \<open>Edit distance as the code computes it\<close>

text \<open>
  \<^verbatim>\<open>levenshteinDistance(a, b)\<close> fills a matrix with one row per prefix of \<^verbatim>\<open>b\<close> and one
  column per prefix of \<^verbatim>\<open>a\<close>. The matrix is a list of rows. The first loop creates the
  rows \<^verbatim>\<open>[i]\<close>, the second extends row 0 to \<^verbatim>\<open>[0, 1, ..., a.length]\<close>, the nested loop
  appends the cells of row \<^verbatim>\<open>i\<close> from left to right, reading row \<^verbatim>\<open>i - 1\<close> and the
  cell just written.
\<close>

definition init_matrix :: "string \<Rightarrow> string \<Rightarrow> nat list list" where
  "init_matrix a b = (map (\<lambda>i. [i]) [0..<Suc (length b)])[0 := [0..<Suc (length a)]]"

fun fill_row :: "char \<Rightarrow> string \<Rightarrow> nat list \<Rightarrow> nat \<Rightarrow> nat list" where
  \<comment> \<open>the inner loop from column \<^verbatim>\<open>j\<close> on: \<^verbatim>\<open>c = b.charAt(i - 1)\<close>, the rest of \<^verbatim>\<open>a\<close> from
      \<^verbatim>\<open>j - 1\<close>, row \<^verbatim>\<open>i - 1\<close> from column \<^verbatim>\<open>j - 1\<close>, and \<^verbatim>\<open>matrix[i][j - 1]\<close>\<close>
  "fill_row c (x # xs) (diag # up # prev) left =
     (let v = (if c = x then diag else min (diag + 1) (min (left + 1) (up + 1)))
      in v # fill_row c xs (up # prev) v)"
| "fill_row c _ _ left = []"

fun fill_matrix :: "string \<Rightarrow> string \<Rightarrow> nat \<Rightarrow> nat list list \<Rightarrow> nat list list" where
  \<comment> \<open>the outer loop from row \<^verbatim>\<open>i\<close> on, over the rest of \<^verbatim>\<open>b\<close> from \<^verbatim>\<open>i - 1\<close>\<close>
  "fill_matrix a [] i matrix = matrix"
| "fill_matrix a (c # cs) i matrix =
     fill_matrix a cs (Suc i)
       (matrix[i := (matrix ! i) @ fill_row c a (matrix ! (i - 1)) (last (matrix ! i))])"

definition levenshteinDistance :: "string \<Rightarrow> string \<Rightarrow> nat" where
  "levenshteinDistance a b = fill_matrix a b 1 (init_matrix a b) ! length b ! length a"

section \<open>The distance allowed\<close>

text \<open>
  \<^verbatim>\<open>Math.floor(cleanTarget.length * 0.35)\<close> is a binary64 computation. The literal
  \<^verbatim>\<open>0.35\<close> is the double \<open>6305039478318694 / 2^54\<close>; the product of a length \<open>n\<close> with
  it is the exact product rounded to 53 significant bits, ties to even; \<^verbatim>\<open>Math.floor\<close>
  of a double is exact. Below, all of it in integers. (A length is below \<open>2^53\<close>, so it
  is a double itself.)
\<close>

definition mantissa_035 :: int where
  "mantissa_035 = 6305039478318694"

definition floor_times_035 :: "nat \<Rightarrow> nat" where
  \<comment> \<open>\<open>p\<close> is the exact product scaled by \<open>2^54\<close>, \<open>s\<close> the number of bits it has beyond 53,
      \<open>q'\<close> its leading 53 bits after rounding to nearest, ties to even\<close>
  "floor_times_035 n =
     (let p = int n * mantissa_035;
          s = nat (bitlen p - 53);
          q = p div 2 ^ s;
          r = p mod 2 ^ s;
          q' = (if 2 * r > 2 ^ s \<or> (2 * r = 2 ^ s \<and> odd q) then q + 1 else q)
      in nat ((q' * 2 ^ s) div 2 ^ 54))"

definition maxAllowedDistance :: "nat \<Rightarrow> nat" where
  \<comment> \<open>\<^verbatim>\<open>Math.max(1, Math.floor(cleanTarget.length * 0.35))\<close>, of the length\<close>
  "maxAllowedDistance len = max 1 (floor_times_035 len)"

section \<open>checkWordMatch\<close>

definition checkWordMatch :: "string \<Rightarrow> string \<Rightarrow> bool" where
  "checkWordMatch spoken target =
     (let cleanSpoken = clean spoken;
          cleanTarget = clean target
      in if cleanSpoken = cleanTarget then True
         else if areHomophones cleanSpoken cleanTarget then True
         else let spokenWords = split_ws cleanSpoken
              in if cleanTarget \<in> set spokenWords then True
                 else if list_ex (\<lambda>word. areHomophones word cleanTarget) spokenWords then True
                 else if levenshteinDistance cleanSpoken cleanTarget
                           \<le> maxAllowedDistance (length cleanTarget) then True
                 else False)"

section \<open>The reference algorithm of the specification\<close>

text \<open>
  The specification describes the matcher as a disjunction of five tests on the normalised
  strings. Its edit distance is the Levenshtein distance, here by the textbook recursion on
  the first characters; \<open>aligned n xs ys\<close> says that \<open>xs\<close> can be turned into \<open>ys\<close> by
  keeping characters and \<open>n\<close> substitutions, deletions and insertions, and the recursion
  is shown below to compute the least such \<open>n\<close>. The specification writes the bound as
  \<^verbatim>\<open>max(1, floor(len(target) * 0.35))\<close>, the expression of the code, and it is read in the
  arithmetic of the code (\<open>floor_times_035\<close>).
\<close>

fun levenshtein :: "'a list \<Rightarrow> 'a list \<Rightarrow> nat" where
  "levenshtein [] ys = length ys"
| "levenshtein xs [] = length xs"
| "levenshtein (x # xs) (y # ys) =
     (if x = y then levenshtein xs ys
      else 1 + min (levenshtein xs (y # ys)) (min (levenshtein (x # xs) ys) (levenshtein xs ys)))"

inductive aligned :: "nat \<Rightarrow> 'a list \<Rightarrow> 'a list \<Rightarrow> bool" where
  stop: "aligned 0 [] []"
| keep: "aligned n xs ys \<Longrightarrow> aligned n (x # xs) (x # ys)"
| subst: "aligned n xs ys \<Longrightarrow> aligned (Suc n) (x # xs) (y # ys)"
| delete: "aligned n xs ys \<Longrightarrow> aligned (Suc n) (x # xs) ys"
| insert: "aligned n xs ys \<Longrightarrow> aligned (Suc n) xs (y # ys)"

code_pred aligned .




section \<open>The flashcard session\<close>

text \<open>
  \<^verbatim>\<open>src/app/child/[id]/flashcards.tsx\<close> keeps the session in React state:
  \<^verbatim>\<open>wordProgress\<close>, \<^verbatim>\<open>queue\<close>, \<^verbatim>\<open>masteredIds\<close>, \<^verbatim>\<open>showFeedback\<close>, \<^verbatim>\<open>isComplete\<close>,
  \<^verbatim>\<open>timeLeft\<close>, \<^verbatim>\<open>isPaused\<close>. The record \<open>session\<close> is that state, and each handler is a
  function from the state it reads to the state its setters leave. What a handler hands
  to its collaborators is returned beside the state: the \<^verbatim>\<open>Word\<close> given to
  \<^verbatim>\<open>updateWord\<close> and the callback given to \<^verbatim>\<open>setTimeout\<close>, as the record of the variables
  it closes over.

  The handlers read \<^verbatim>\<open>child\<close> (absent when no child has the id of the route) and
  \<^verbatim>\<open>childWords\<close>, the words of the child that are new or learning; both are arguments
  here, the values that the closures of the handlers have captured. The component computes
  \<^verbatim>\<open>childWords\<close> from the word list of its context and runs the initialising effect when
  that list changes; the model follows the handlers and the effect as they are written and
  leaves the rendering of the component out.

  The component mutates the \<^verbatim>\<open>Word\<close> object of a progress entry in place, which the
  entry then shows: the model writes the new record into the entry.
  \<^verbatim>\<open>new Date().toISOString()\<close> is the argument \<open>now\<close>, and
  \<^verbatim>\<open>sort(() => Math.random() - 0.5)\<close> is the argument \<open>shuffle\<close>, of which the theorems
  assume that it permutes its list (\<open>is_shuffle\<close>).
\<close>

text \<open>
  Modelled from the spec: the types \<^verbatim>\<open>Word\<close> and \<^verbatim>\<open>Child\<close>, whose declarations
  (\<^verbatim>\<open>types\<close>) are not among the sources. A word has a stable id, an owning learner, a
  lifecycle status among new, learning and mastered, a cumulative correct count, a
  cumulative incorrect count and a last-tested timestamp; the fields are named as
  \<^verbatim>\<open>flashcards.tsx\<close> and the context provider use them (\<open>ident\<close> is \<^verbatim>\<open>id\<close>). Of a child
  the handlers read the mastery threshold, the timer duration and the demotion switch.
\<close>

datatype status = New | Learning | Mastered

record Word =
  ident :: string
  childId :: string
  status :: status
  masteryCorrectCount :: int
  incorrectCount :: int
  lastTested :: "string option"

record Child =
  child_masteryThreshold :: int
  child_timerSeconds :: int
  child_demoteOnMiss :: bool

record WordProgress =
  word :: Word
  sessionCorrectCount :: int
  totalAttempts :: int

datatype feedback = Correct | Incorrect

record session =
  wordProgress :: "string \<rightharpoonup> WordProgress"
  queue :: "string list"
  masteredIds :: "string list"
  showFeedback :: "feedback option"
  isComplete :: bool
  timeLeft :: int
  isPaused :: bool

record timeout =
  delay :: nat
  t_queue :: "string list"
  t_masteredIds :: "string list"
  t_currentWordId :: string
  t_updatedWordProg :: WordProgress

definition is_shuffle :: "(string list \<Rightarrow> string list) \<Rightarrow> bool" where
  "is_shuffle shuffle \<longleftrightarrow> (\<forall>xs. mset (shuffle xs) = mset xs)"

definition masteryThreshold :: "Child option \<Rightarrow> int" where
  \<comment> \<open>\<^verbatim>\<open>child?.masteryThreshold || 4\<close>\<close>
  "masteryThreshold child =
     (case child of None \<Rightarrow> 4
      | Some c \<Rightarrow> if child_masteryThreshold c = 0 then 4 else child_masteryThreshold c)"

definition timerSeconds :: "Child option \<Rightarrow> int" where
  \<comment> \<open>\<^verbatim>\<open>child?.timerSeconds || 7\<close>\<close>
  "timerSeconds child =
     (case child of None \<Rightarrow> 7
      | Some c \<Rightarrow> if child_timerSeconds c = 0 then 7 else child_timerSeconds c)"

definition demoteOnMiss :: "Child option \<Rightarrow> bool" where
  \<comment> \<open>\<^verbatim>\<open>child?.demoteOnMiss\<close> as a condition\<close>
  "demoteOnMiss child = (case child of None \<Rightarrow> False | Some c \<Rightarrow> child_demoteOnMiss c)"

definition initialState :: "Child option \<Rightarrow> session" where
  \<comment> \<open>the initial values of the \<^verbatim>\<open>useState\<close> calls\<close>
  "initialState child =
     \<lparr>wordProgress = Map.empty, queue = [], masteredIds = [], showFeedback = None,
      isComplete = False, timeLeft = timerSeconds child, isPaused = False\<rparr>"

definition initSession ::
  "Child option \<Rightarrow> Word list \<Rightarrow> (string list \<Rightarrow> string list) \<Rightarrow> session \<Rightarrow> session" where
  \<comment> \<open>the effect \<^verbatim>\<open>Initialize session\<close>\<close>
  "initSession child childWords shuffle s =
     (if childWords = [] then s
      else s\<lparr>wordProgress :=
                 fold (\<lambda>w progress.
                         progress(ident w \<mapsto> \<lparr>word = w, sessionCorrectCount = 0, totalAttempts = 0\<rparr>))
                   childWords Map.empty,
              queue := shuffle (map ident childWords),
              timeLeft := timerSeconds child\<rparr>)"

definition currentWordId :: "session \<Rightarrow> string option" where
  \<comment> \<open>\<^verbatim>\<open>queue[0]\<close>, undefined for the empty queue\<close>
  "currentWordId s = (case queue s of [] \<Rightarrow> None | i # _ \<Rightarrow> Some i)"

definition currentProgress :: "session \<Rightarrow> WordProgress option" where
  \<comment> \<open>\<^verbatim>\<open>currentWordId ? wordProgress.get(currentWordId) : null\<close>; the empty string is falsy\<close>
  "currentProgress s =
     (case currentWordId s of None \<Rightarrow> None
      | Some i \<Rightarrow> if i = [] then None else wordProgress s i)"

definition updateStatus :: "Child option \<Rightarrow> string \<Rightarrow> bool \<Rightarrow> Word \<Rightarrow> Word" where
  \<comment> \<open>the lines under \<^verbatim>\<open>// Update word in storage\<close>, up to the call of \<^verbatim>\<open>updateWord\<close>\<close>
  "updateStatus child now isCorrect w =
     (let w1 =
        (if isCorrect then
           (let w' = w\<lparr>masteryCorrectCount := masteryCorrectCount w + 1\<rparr>
            in if masteryCorrectCount w' \<ge> masteryThreshold child then w'\<lparr>status := Mastered\<rparr>
               else if status w' = New then w'\<lparr>status := Learning\<rparr>
               else w')
         else if demoteOnMiss child \<and> status w = Mastered then w\<lparr>status := Learning\<rparr>
         else w)
      in w1\<lparr>lastTested := Some now\<rparr>)"

definition handleAnswer ::
  "Child option \<Rightarrow> string \<Rightarrow> bool \<Rightarrow> session \<Rightarrow> session \<times> (Word \<times> timeout) option" where
  \<comment> \<open>the part of \<^verbatim>\<open>handleAnswer\<close> that runs at once; the result holds the word passed to
      \<^verbatim>\<open>updateWord\<close> and the callback passed to \<^verbatim>\<open>setTimeout\<close>\<close>
  "handleAnswer child now isCorrect s =
     (case currentWordId s of
        None \<Rightarrow> (s, None)
      | Some cid \<Rightarrow>
          if cid = [] then (s, None)
          else (case currentProgress s of
                  None \<Rightarrow> (s, None)
                | Some cp \<Rightarrow>
                    let attempted = cp\<lparr>totalAttempts := totalAttempts cp + 1\<rparr>;
                        counted = (if isCorrect
                                   then attempted\<lparr>sessionCorrectCount := sessionCorrectCount attempted + 1\<rparr>
                                   else attempted);
                        w = updateStatus child now isCorrect (word counted);
                        updatedWordProg = counted\<lparr>word := w\<rparr>
                    in (s\<lparr>showFeedback := Some (if isCorrect then Correct else Incorrect),
                          wordProgress := (wordProgress s)(cid \<mapsto> updatedWordProg)\<rparr>,
                        Some (w, \<lparr>delay = (if isCorrect then 800 else 1500),
                                  t_queue = queue s,
                                  t_masteredIds = masteredIds s,
                                  t_currentWordId = cid,
                                  t_updatedWordProg = updatedWordProg\<rparr>))))"

definition requeue :: "string \<Rightarrow> string list \<Rightarrow> string list" where
  \<comment> \<open>the branch \<^verbatim>\<open>// Put word back in queue with delay\<close>, on the queue without its head\<close>
  "requeue cid newQueue =
     (if newQueue = [] then [cid]
      else (let insertPos = min (length newQueue) 3
            in take insertPos newQueue @ [cid] @ drop insertPos newQueue))"

definition timeoutCallback ::
  "Child option \<Rightarrow> Word list \<Rightarrow> (string list \<Rightarrow> string list) \<Rightarrow> timeout \<Rightarrow> session \<Rightarrow> session" where
  \<comment> \<open>the callback of \<^verbatim>\<open>setTimeout\<close> in \<^verbatim>\<open>handleAnswer\<close>; \<^verbatim>\<open>shift\<close> on a copy of the queue
      is \<open>tl\<close>, also on the empty queue\<close>
  "timeoutCallback child childWords shuffle t s =
     (let s1 = s\<lparr>showFeedback := None, timeLeft := timerSeconds child\<rparr>;
          newQueue = tl (t_queue t);
          wordJustMastered = (sessionCorrectCount (t_updatedWordProg t) \<ge> masteryThreshold child)
      in if wordJustMastered then
           (let newMasteredIds = t_masteredIds t @ [t_currentWordId t];
                s2 = s1\<lparr>masteredIds := newMasteredIds\<rparr>
            in if length newMasteredIds \<ge> length childWords then s2\<lparr>isComplete := True\<rparr>
               else if newQueue = [] then
                 s2\<lparr>queue := shuffle (map ident
                                 (filter (\<lambda>w. ident w \<notin> set newMasteredIds) childWords))\<rparr>
               else s2\<lparr>queue := filter (\<lambda>i. i \<noteq> t_currentWordId t) newQueue\<rparr>)
         else s1\<lparr>queue := requeue (t_currentWordId t) newQueue\<rparr>)"

definition handleRestart ::
  "Child option \<Rightarrow> Word list \<Rightarrow> (string list \<Rightarrow> string list) \<Rightarrow> session \<Rightarrow> session" where
  "handleRestart child childWords shuffle s =
     s\<lparr>isComplete := False, masteredIds := [], showFeedback := None,
       queue := shuffle (map ident childWords), timeLeft := timerSeconds child\<rparr>"

definition pressButton ::
  "Child option \<Rightarrow> string \<Rightarrow> bool \<Rightarrow> session \<Rightarrow> session \<times> (Word \<times> timeout) option" where
  \<comment> \<open>the buttons Correct and Incorrect: \<^verbatim>\<open>onPress={() => handleAnswer(...)}\<close> with
      \<^verbatim>\<open>disabled={showFeedback !== null}\<close>\<close>
  "pressButton child now isCorrect s =
     (if showFeedback s \<noteq> None then (s, None) else handleAnswer child now isCorrect s)"

definition tick ::
  "Child option \<Rightarrow> string \<Rightarrow> session \<Rightarrow> session \<times> (Word \<times> timeout) option" where
  \<comment> \<open>one firing of the interval of the timer effect; the effect clears the interval when
      there is no current word, during feedback, after completion and while paused\<close>
  "tick child now s =
     (if currentProgress s = None \<or> showFeedback s \<noteq> None \<or> isComplete s \<or> isPaused s
      then (s, None)
      else if timeLeft s \<le> 1 then
        (case handleAnswer child now False s of (s1, out) \<Rightarrow> (s1\<lparr>timeLeft := 0\<rparr>, out))
      else (s\<lparr>timeLeft := timeLeft s - 1\<rparr>, None))"

definition answer ::
  "Child option \<Rightarrow> Word list \<Rightarrow> string \<Rightarrow> (string list \<Rightarrow> string list) \<Rightarrow> bool \<Rightarrow> session \<Rightarrow> session" where
  \<comment> \<open>a verdict together with the callback it schedules\<close>
  "answer child childWords now shuffle isCorrect s =
     (case handleAnswer child now isCorrect s of
        (s1, None) \<Rightarrow> s1
      | (s1, Some (w, t)) \<Rightarrow> timeoutCallback child childWords shuffle t s1)"

text \<open>
  The states a session passes through, each with the callback that is pending. The
  buttons and the timer exist on the practice screen only, the restart button on the
  completion screen only.
\<close>

inductive reach :: "Child option \<Rightarrow> Word list \<Rightarrow> session \<times> timeout option \<Rightarrow> bool"
  for child :: "Child option" and childWords :: "Word list" where
  start: "childWords \<noteq> [] \<Longrightarrow> is_shuffle shuffle \<Longrightarrow>
          reach child childWords (initSession child childWords shuffle (initialState child), None)"
| verdict: "reach child childWords (s, None) \<Longrightarrow> \<not> isComplete s \<Longrightarrow>
            pressButton child now isCorrect s = (s', out) \<Longrightarrow>
            reach child childWords (s', map_option snd out)"
| expiry: "reach child childWords (s, None) \<Longrightarrow> tick child now s = (s', out) \<Longrightarrow>
           reach child childWords (s', map_option snd out)"
| timer: "reach child childWords (s, Some t) \<Longrightarrow> is_shuffle shuffle \<Longrightarrow>
          reach child childWords (timeoutCallback child childWords shuffle t s, None)"
| restart: "reach child childWords (s, None) \<Longrightarrow> isComplete s \<Longrightarrow> is_shuffle shuffle \<Longrightarrow>
            reach child childWords (handleRestart child childWords shuffle s, None)"
| pause: "reach child childWords (s, p) \<Longrightarrow>
          reach child childWords (s\<lparr>isPaused := \<not> isPaused s\<rparr>, p)"

section \<open>Runs of a session\<close>





section \<open>Concrete sessions\<close>

text \<open>
  Two words, a child with mastery threshold 1 and demotion, a child with threshold 2 and
  no demotion, the shuffle that keeps the order, and the sessions that the examples below
  pass through.
\<close>

definition wordA :: Word where
  "wordA = \<lparr>ident = ''a'', childId = ''c'', status = New, masteryCorrectCount = 0,
            incorrectCount = 0, lastTested = None\<rparr>"

definition wordB :: Word where
  "wordB = \<lparr>ident = ''b'', childId = ''c'', status = Mastered, masteryCorrectCount = 5,
            incorrectCount = 0, lastTested = None\<rparr>"

definition child1 :: "Child option" where
  "child1 = Some \<lparr>child_masteryThreshold = 1, child_timerSeconds = 7, child_demoteOnMiss = True\<rparr>"

definition child2 :: "Child option" where
  "child2 = Some \<lparr>child_masteryThreshold = 2, child_timerSeconds = 7, child_demoteOnMiss = False\<rparr>"

definition keep :: "string list \<Rightarrow> string list" where
  "keep xs = xs"

definition start1 :: session where
  "start1 = initSession child1 [wordA] keep (initialState child1)"

definition done1 :: session where
  "done1 = answer child1 [wordA] ''t1'' keep True start1"


definition start2 :: session where
  "start2 = initSession child2 [wordA, wordB] keep (initialState child2)"

definition missed2 :: "session \<times> (Word \<times> timeout) option" where
  "missed2 = handleAnswer child2 ''t1'' False start2"


definition start3 :: session where
  "start3 = initSession child2 [wordA] keep (initialState child2)"

definition start4 :: session where
  "start4 = initSession child1 [wordB] keep (initialState child1)"

section \<open>Listening for one word\<close>

text \<open>
  \<^verbatim>\<open>startListening\<close> of \<^verbatim>\<open>src/lib/speech.ts\<close> registers three handlers with the
  recognition module and returns a handle. The variables the handlers close over,
  \<^verbatim>\<open>currentTarget\<close> and \<^verbatim>\<open>stopped\<close>, are the record \<open>listener\<close>; a handle without
  handlers (the module is missing, or \<^verbatim>\<open>ExpoSpeechRecognition.start\<close> has thrown, the one
  call of the \<^verbatim>\<open>try\<close> block taken to throw) is \<open>Inert\<close>. A handler returns the callbacks
  it invokes, in order. An event reaches the handlers of a handle whether or not \<^verbatim>\<open>stop\<close>
  has removed the subscriptions, so that what follows holds of an event that was already
  on its way. The arguments of \<open>startListening\<close> say whether the module is there and
  whether \<^verbatim>\<open>start\<close> throws, with the message of the error if it has one.
\<close>

record alternative =
  alt_transcript :: "string option"
  alt_confidence :: "rat option"

record speech_result =
  alternatives :: "alternative list"
  isFinal :: bool

datatype speech_event = Result "speech_result list option" | Error "string option" | End

record RecognitionResult =
  r_transcript :: string
  r_confidence :: rat
  r_isMatch :: bool

datatype callback = OnMatch RecognitionResult | OnNoMatch RecognitionResult | OnError string | OnEnd

record listener =
  currentTarget :: string
  stopped :: bool

datatype listening = Inert | Listening listener

definition startListening :: "bool \<Rightarrow> string option option \<Rightarrow> string \<Rightarrow> callback list \<times> listening" where
  "startListening available startThrows targetWord =
     (if \<not> available then ([OnError ''Speech recognition not available'', OnEnd], Inert)
      else (case startThrows of
              Some message \<Rightarrow>
                ([OnError (case message of None \<Rightarrow> ''Failed to start recognition''
                                          | Some m \<Rightarrow> if m = [] then ''Failed to start recognition'' else m),
                  OnEnd], Inert)
            | None \<Rightarrow> ([], Listening \<lparr>currentTarget = targetWord, stopped = False\<rparr>)))"

definition handleResult :: "listener \<Rightarrow> speech_result list option \<Rightarrow> callback list" where
  "handleResult l results =
     (if stopped l then []
      else (case results of
              None \<Rightarrow> []
            | Some rs \<Rightarrow>
                if rs = [] then []
                else (let lastResult = last rs
                      in (case alternatives lastResult of
                            [] \<Rightarrow> []
                          | first # _ \<Rightarrow>
                              let transcript = (case alt_transcript first of None \<Rightarrow> [] | Some t \<Rightarrow> t);
                                  confidence = (case alt_confidence first of None \<Rightarrow> 0 | Some c \<Rightarrow> c);
                                  isMatch = checkWordMatch transcript (currentTarget l);
                                  result = \<lparr>r_transcript = transcript, r_confidence = confidence,
                                            r_isMatch = isMatch\<rparr>
                              in if isMatch then [OnMatch result]
                                 else if isFinal lastResult then [OnNoMatch result]
                                 else []))))"

definition handleError :: "listener \<Rightarrow> string option \<Rightarrow> callback list" where
  "handleError l e =
     (if \<not> stopped l
      then [OnError (case e of None \<Rightarrow> ''Recognition error''
                            | Some m \<Rightarrow> if m = [] then ''Recognition error'' else m)]
      else [])"

definition handleEnd :: "listener \<Rightarrow> callback list" where
  "handleEnd l = (if \<not> stopped l then [OnEnd] else [])"

fun deliver :: "speech_event \<Rightarrow> listening \<Rightarrow> callback list" where
  "deliver e Inert = []"
| "deliver (Result results) (Listening l) = handleResult l results"
| "deliver (Error e) (Listening l) = handleError l e"
| "deliver End (Listening l) = handleEnd l"

fun stop :: "listening \<Rightarrow> listening" where
  "stop Inert = Inert"
| "stop (Listening l) = Listening (l\<lparr>stopped := True\<rparr>)"

fun updateTargetWord :: "string \<Rightarrow> listening \<Rightarrow> listening" where
  "updateTargetWord newWord Inert = Inert"
| "updateTargetWord newWord (Listening l) = Listening (l\<lparr>currentTarget := newWord\<rparr>)"

datatype action = Event speech_event | Stop | UpdateTargetWord string

fun listen :: "action list \<Rightarrow> listening \<Rightarrow> callback list" where
  "listen [] l = []"
| "listen (Event e # as) l = deliver e l @ listen as l"
| "listen (Stop # as) l = listen as (stop l)"
| "listen (UpdateTargetWord w # as) l = listen as (updateTargetWord w l)"

fun silent :: "listening \<Rightarrow> bool" where
  "silent Inert = True"
| "silent (Listening l) = stopped l"

section \<open>Listening for several words\<close>

text \<open>
  \<^verbatim>\<open>startContinuousListening\<close> closes over \<^verbatim>\<open>currentTargets\<close>, \<^verbatim>\<open>matchedIndices\<close> and
  \<^verbatim>\<open>stopped\<close>. The callback \<^verbatim>\<open>onAllMatches\<close> is optional; what it does with the function
  \<^verbatim>\<open>markWordMatched\<close> it receives is the list of indices it marks, and a call of that
  function at a later time is an action of its own. When recognition ends and the listener
  has not been stopped, the handler starts recognition again (\<open>Restart\<close>), or calls
  \<^verbatim>\<open>onEnd\<close> when that throws.
\<close>

record MultiWordMatch =
  m_word :: string
  m_index :: nat
  m_transcript :: string
  m_confidence :: rat

datatype ccallback =
  OnWordMatch MultiWordMatch | OnInterimResult string | OnAllMatches "MultiWordMatch list"
  | COnError string | COnEnd | Restart

record continuous =
  currentTargets :: "string list"
  matchedIndices :: "nat set"
  c_stopped :: bool

datatype clistening = CInert | CListening continuous

definition startContinuousListening ::
  "bool \<Rightarrow> string option option \<Rightarrow> string list \<Rightarrow> ccallback list \<times> clistening" where
  "startContinuousListening available startThrows targetWords =
     (if \<not> available then ([COnError ''Speech recognition not available'', COnEnd], CInert)
      else (case startThrows of
              Some message \<Rightarrow>
                ([COnError (case message of None \<Rightarrow> ''Failed to start recognition''
                                          | Some m \<Rightarrow> if m = [] then ''Failed to start recognition'' else m),
                  COnEnd], CInert)
            | None \<Rightarrow> ([], CListening \<lparr>currentTargets = targetWords, matchedIndices = {},
                                     c_stopped = False\<rparr>)))"

definition collect :: "continuous \<Rightarrow> string \<Rightarrow> rat \<Rightarrow> string list \<Rightarrow> MultiWordMatch list" where
  "collect c transcript confidence spoken =
     map (\<lambda>(index, wd). \<lparr>m_word = wd, m_index = index, m_transcript = transcript,
                          m_confidence = confidence\<rparr>)
       (filter (\<lambda>(index, wd). index \<notin> matchedIndices c \<and> list_ex (\<lambda>s. checkWordMatch s wd) spoken)
          (enumerate 0 (currentTargets c)))"

fun announce :: "MultiWordMatch list \<Rightarrow> nat set \<Rightarrow> ccallback list \<times> nat set" where
  "announce [] matched = ([], matched)"
| "announce (m # ms) matched =
     (if m_index m \<in> matched then announce ms matched
      else (case announce ms (insert (m_index m) matched) of
              (cs, matched') \<Rightarrow> (OnWordMatch m # cs, matched')))"

definition handleResultC ::
  "(MultiWordMatch list \<Rightarrow> nat list) option \<Rightarrow> continuous \<Rightarrow> speech_result list option
     \<Rightarrow> ccallback list \<times> continuous" where
  "handleResultC onAllMatches c results =
     (if c_stopped c then ([], c)
      else (case results of
              None \<Rightarrow> ([], c)
            | Some rs \<Rightarrow>
                if rs = [] then ([], c)
                else (let lastResult = last rs
                      in (case alternatives lastResult of
                            [] \<Rightarrow> ([], c)
                          | first # _ \<Rightarrow>
                              let transcript = (case alt_transcript first of None \<Rightarrow> [] | Some t \<Rightarrow> t);
                                  confidence = (case alt_confidence first of None \<Rightarrow> 0 | Some x \<Rightarrow> x);
                                  spoken = split_ws (toLowerCase transcript);
                                  allMatches = collect c transcript confidence spoken;
                                  (told, marked) =
                                    (case onAllMatches of
                                       Some f \<Rightarrow>
                                         if allMatches \<noteq> []
                                         then ([OnAllMatches allMatches],
                                               matchedIndices c \<union> set (f allMatches))
                                         else ([], matchedIndices c)
                                     | None \<Rightarrow> ([], matchedIndices c));
                                  (said, matched) = announce allMatches marked
                              in (OnInterimResult transcript # told @ said,
                                  c\<lparr>matchedIndices := matched\<rparr>)))))"

definition handleErrorC :: "continuous \<Rightarrow> string option \<Rightarrow> ccallback list" where
  "handleErrorC c e =
     (if \<not> c_stopped c
      then [COnError (case e of None \<Rightarrow> ''Recognition error''
                             | Some m \<Rightarrow> if m = [] then ''Recognition error'' else m)]
      else [])"

definition handleEndC :: "bool \<Rightarrow> continuous \<Rightarrow> ccallback list" where
  "handleEndC restartThrows c =
     (if \<not> c_stopped c then (if restartThrows then [COnEnd] else [Restart]) else [])"

datatype caction =
  CEvent speech_event bool | CStop | UpdateTargetWords "string list" | MarkWordMatched nat

fun cstep ::
  "(MultiWordMatch list \<Rightarrow> nat list) option \<Rightarrow> caction \<Rightarrow> clistening \<Rightarrow> ccallback list \<times> clistening" where
  "cstep onAllMatches a CInert = ([], CInert)"
| "cstep onAllMatches (CEvent (Result results) restartThrows) (CListening c) =
     (case handleResultC onAllMatches c results of (cs, c') \<Rightarrow> (cs, CListening c'))"
| "cstep onAllMatches (CEvent (Error e) restartThrows) (CListening c) = (handleErrorC c e, CListening c)"
| "cstep onAllMatches (CEvent End restartThrows) (CListening c) =
     (handleEndC restartThrows c, CListening c)"
| "cstep onAllMatches CStop (CListening c) = ([], CListening (c\<lparr>c_stopped := True\<rparr>))"
| "cstep onAllMatches (UpdateTargetWords ws) (CListening c) =
     ([], CListening (c\<lparr>currentTargets := ws, matchedIndices := {}\<rparr>))"
| "cstep onAllMatches (MarkWordMatched i) (CListening c) =
     ([], CListening (c\<lparr>matchedIndices := insert i (matchedIndices c)\<rparr>))"

fun clisten ::
  "(MultiWordMatch list \<Rightarrow> nat list) option \<Rightarrow> caction list \<Rightarrow> clistening \<Rightarrow> ccallback list" where
  "clisten onAllMatches [] l = []"
| "clisten onAllMatches (a # as) l =
     (case cstep onAllMatches a l of (cs, l') \<Rightarrow> cs @ clisten onAllMatches as l')"

fun is_update :: "caction \<Rightarrow> bool" where
  "is_update (UpdateTargetWords ws) = True"
| "is_update _ = False"

fun matched_index :: "ccallback \<Rightarrow> nat option" where
  "matched_index (OnWordMatch m) = Some (m_index m)"
| "matched_index _ = None"

definition word_matches :: "ccallback list \<Rightarrow> nat list" where
  "word_matches cs = List.map_filter matched_index cs"

fun matched_of :: "clistening \<Rightarrow> nat set" where
  "matched_of CInert = {}"
| "matched_of (CListening c) = matchedIndices c"

section \<open>Concrete listeners\<close>

definition heard :: "string \<Rightarrow> speech_event" where
  "heard t = Result (Some [\<lparr>alternatives = [\<lparr>alt_transcript = Some t, alt_confidence = Some 1\<rparr>],
                             isFinal = False\<rparr>])"

definition listening_cat :: listening where
  "listening_cat = snd (startListening True None ''cat'')"

definition listening_pets :: clistening where
  "listening_pets = snd (startContinuousListening True None [''cat'', ''dog''])"

section \<open>Auxiliary notions of the proofs\<close>




section \<open>The matcher: proofs\<close>

subsection \<open>The recursion computes the least number of edits\<close>

lemma levenshtein_Nil2 [simp]: "levenshtein xs [] = length xs"
  by (cases xs) simp_all

lemma levenshtein_sym: "levenshtein xs ys = levenshtein ys xs"
  by (induction xs ys rule: levenshtein.induct) (auto simp: min.commute min.left_commute)

lemma aligned_Nil_left: "aligned (length ys) [] ys"
  by (induction ys) (auto intro: aligned.intros)

lemma aligned_Nil_right: "aligned (length xs) xs []"
  by (induction xs) (auto intro: aligned.intros)

lemma aligned_levenshtein: "aligned (levenshtein xs ys) xs ys"
proof (induction xs ys rule: levenshtein.induct)
  case (1 ys)
  show ?case by (simp add: aligned_Nil_left)
next
  case (2 v va)
  show ?case using aligned_Nil_right [of "v # va"] by simp
next
  case (3 x xs y ys)
  show ?case
  proof (cases "x = y")
    case True
    with 3 show ?thesis by (auto intro: aligned.keep)
  next
    case False
    let ?a = "levenshtein xs (y # ys)" and ?b = "levenshtein (x # xs) ys" and ?c = "levenshtein xs ys"
    have m: "min ?a (min ?b ?c) = ?a \<or> min ?a (min ?b ?c) = ?b \<or> min ?a (min ?b ?c) = ?c"
      by (auto simp: min_def)
    from False 3 have "aligned (Suc ?a) (x # xs) (y # ys)" "aligned (Suc ?b) (x # xs) (y # ys)"
      "aligned (Suc ?c) (x # xs) (y # ys)"
      by (auto intro: aligned.intros)
    with m False show ?thesis by auto
  qed
qed

lemma levenshtein_Cons_left:
  "levenshtein (x # xs) ys \<le> Suc (levenshtein xs ys) \<and>
   levenshtein xs ys \<le> Suc (levenshtein (x # xs) ys)"
proof (induction "length xs + length ys" arbitrary: xs ys x rule: less_induct)
  case less
  show ?case
  proof (cases ys)
    case Nil
    then show ?thesis by simp
  next
    case (Cons y ys')
    have ih1: "levenshtein (z # ys') xs \<le> Suc (levenshtein ys' xs) \<and>
               levenshtein ys' xs \<le> Suc (levenshtein (z # ys') xs)" for z
      using less [of ys' xs] Cons by simp
    have ih2: "levenshtein (z # xs) ys' \<le> Suc (levenshtein xs ys') \<and>
               levenshtein xs ys' \<le> Suc (levenshtein (z # xs) ys')" for z
      using less [of xs ys'] Cons by simp
    have b: "levenshtein xs (y # ys') \<le> Suc (levenshtein xs ys')"
      using ih1 [of y] levenshtein_sym [of xs "y # ys'"] levenshtein_sym [of xs ys'] by simp
    have d: "levenshtein xs ys' \<le> Suc (levenshtein xs (x # ys'))"
      using ih1 [of x] levenshtein_sym [of xs "x # ys'"] levenshtein_sym [of xs ys'] by simp
    show ?thesis
    proof (cases "x = y")
      case True
      with Cons b d show ?thesis by simp
    next
      case False
      with Cons b ih2 [of x] show ?thesis by (simp add: min_def)
    qed
  qed
qed

lemma levenshtein_Cons_right:
  "levenshtein xs (y # ys) \<le> Suc (levenshtein xs ys) \<and>
   levenshtein xs ys \<le> Suc (levenshtein xs (y # ys))"
  using levenshtein_Cons_left [of y ys xs] levenshtein_sym [of xs "y # ys"] levenshtein_sym [of xs ys]
  by simp

lemma levenshtein_least: "aligned n xs ys \<Longrightarrow> levenshtein xs ys \<le> n"
proof (induction rule: aligned.induct)
  case stop
  show ?case by simp
next
  case (keep n xs ys x)
  then show ?case by simp
next
  case (subst n xs ys x y)
  then show ?case by (simp add: min_def)
next
  case (delete n xs ys x)
  with levenshtein_Cons_left [of x xs ys] show ?case by simp
next
  case (insert n xs ys y)
  with levenshtein_Cons_right [of xs y ys] show ?case by simp
qed





lemma levenshtein_Least: "levenshtein xs ys = (LEAST n. aligned n xs ys)"
  by (rule Least_equality [symmetric]) (auto intro: aligned_levenshtein levenshtein_least)

subsection \<open>The matrix holds the distances of the prefixes\<close>







subsection \<open>The homophone map lists the groups\<close>














subsection \<open>The allowed distance in exact arithmetic\<close>






section \<open>The session: proofs\<close>

lemma handleAnswer_accepts:
  assumes "queue s = cid # rest" "cid \<noteq> []" "wordProgress s cid = Some cp"
  shows "handleAnswer child now isCorrect s =
    (s\<lparr>showFeedback := Some (if isCorrect then Correct else Incorrect),
       wordProgress := (wordProgress s)(cid \<mapsto>
          \<lparr>word = updateStatus child now isCorrect (word cp),
           sessionCorrectCount = sessionCorrectCount cp + (if isCorrect then 1 else 0),
           totalAttempts = totalAttempts cp + 1\<rparr>)\<rparr>,
     Some (updateStatus child now isCorrect (word cp),
           \<lparr>delay = (if isCorrect then 800 else 1500), t_queue = queue s,
            t_masteredIds = masteredIds s, t_currentWordId = cid,
            t_updatedWordProg =
              \<lparr>word = updateStatus child now isCorrect (word cp),
               sessionCorrectCount = sessionCorrectCount cp + (if isCorrect then 1 else 0),
               totalAttempts = totalAttempts cp + 1\<rparr>\<rparr>))"
  using assms
  by (cases cp) (simp add: handleAnswer_def currentWordId_def currentProgress_def Let_def)


lemma updateStatus_status:
  "status (updateStatus child now isCorrect w) =
     (if isCorrect then
        (if masteryThreshold child \<le> masteryCorrectCount w + 1 then Mastered
         else if status w = New then Learning else status w)
      else if demoteOnMiss child \<and> status w = Mastered then Learning else status w)"
  by (simp add: updateStatus_def Let_def)

lemma updateStatus_fields:
  "ident (updateStatus child now isCorrect w) = ident w"
  "masteryCorrectCount (updateStatus child now isCorrect w) = masteryCorrectCount w + (if isCorrect then 1 else 0)"
  "incorrectCount (updateStatus child now isCorrect w) = incorrectCount w"
  "lastTested (updateStatus child now isCorrect w) = Some now"
  by (simp_all add: updateStatus_def Let_def)


































lemmas demo_defs = wordA_def wordB_def child1_def child2_def keep_def start1_def done1_def
  start2_def missed2_def















lemma start3_eval:
  "queue start3 = ''a'' # []" "''a'' \<noteq> []"
  "wordProgress start3 ''a'' = Some \<lparr>word = wordA, sessionCorrectCount = 0, totalAttempts = 0\<rparr>"
  by (simp_all add: start3_def initSession_def initialState_def wordA_def keep_def)


text \<open>
  Claim C5. The word passed to \<^verbatim>\<open>updateWord\<close> after a verdict: on a correct verdict it is
  mastered when its cumulative count, now one higher, has reached the threshold, else
  learning when it was new, else as before; on an incorrect verdict it is learning when it
  was mastered and demotion is on, else as before (so unchanged when demotion is off).
\<close>

theorem status_after_verdict:
  "queue s = cid # rest \<and> cid \<noteq> [] \<and> wordProgress s cid = Some cp \<longrightarrow>
     (\<exists>s' w t p'. handleAnswer child now isCorrect s = (s', Some (w, t))
        \<and> wordProgress s' cid = Some p' \<and> word p' = w
        \<and> masteryCorrectCount w = masteryCorrectCount (word cp) + (if isCorrect then 1 else 0)
        \<and> status w =
            (if isCorrect then
               (if masteryThreshold child \<le> masteryCorrectCount (word cp) + 1 then Mastered
                else if status (word cp) = New then Learning
                else status (word cp))
             else if demoteOnMiss child \<and> status (word cp) = Mastered then Learning
             else status (word cp)))"
proof
  assume "queue s = cid # rest \<and> cid \<noteq> [] \<and> wordProgress s cid = Some cp"
  then have q: "queue s = cid # rest" "cid \<noteq> []" "wordProgress s cid = Some cp" by simp_all
  show "\<exists>s' w t p'. handleAnswer child now isCorrect s = (s', Some (w, t))
        \<and> wordProgress s' cid = Some p' \<and> word p' = w
        \<and> masteryCorrectCount w = masteryCorrectCount (word cp) + (if isCorrect then 1 else 0)
        \<and> status w =
            (if isCorrect then
               (if masteryThreshold child \<le> masteryCorrectCount (word cp) + 1 then Mastered
                else if status (word cp) = New then Learning
                else status (word cp))
             else if demoteOnMiss child \<and> status (word cp) = Mastered then Learning
             else status (word cp))"
    unfolding handleAnswer_accepts [OF q]
    by (simp add: updateStatus_status updateStatus_fields)
qed

lemma start4_eval:
  "queue start4 = ''b'' # []" "''b'' \<noteq> []"
  "wordProgress start4 ''b'' = Some \<lparr>word = wordB, sessionCorrectCount = 0, totalAttempts = 0\<rparr>"
  by (simp_all add: start4_def initSession_def initialState_def wordB_def keep_def)

theorem status_after_verdict_witness:
  "(\<exists>s' w t. handleAnswer child2 ''t1'' True start3 = (s', Some (w, t)) \<and> status w = Learning)
   \<and> (\<exists>s' w t. handleAnswer child1 ''t1'' True start1 = (s', Some (w, t)) \<and> status w = Mastered)
   \<and> (\<exists>s' w t. handleAnswer child1 ''t1'' False start4 = (s', Some (w, t)) \<and> status w = Learning)
   \<and> (\<exists>s' w t. handleAnswer child2 ''t1'' False start4 = (s', Some (w, t)) \<and> status w = Mastered)"
proof -
  have s1: "queue start1 = ''a'' # []"
    "wordProgress start1 ''a'' = Some \<lparr>word = wordA, sessionCorrectCount = 0, totalAttempts = 0\<rparr>"
    by (simp_all add: start1_def initSession_def initialState_def wordA_def keep_def)
  have c: "masteryThreshold child1 = 1" "masteryThreshold child2 = 2"
    "demoteOnMiss child1" "\<not> demoteOnMiss child2"
    "status wordA = New" "status wordB = Mastered"
    "masteryCorrectCount wordA = 0" "masteryCorrectCount wordB = 5"
    by (simp_all add: demo_defs masteryThreshold_def demoteOnMiss_def)
  from status_after_verdict [of start3 "''a''" "[]"
      "\<lparr>word = wordA, sessionCorrectCount = 0, totalAttempts = 0\<rparr>" child2 "''t1''" True]
    start3_eval c
  have 1: "\<exists>s' w t. handleAnswer child2 ''t1'' True start3 = (s', Some (w, t)) \<and> status w = Learning"
    by auto
  from status_after_verdict [of start1 "''a''" "[]"
      "\<lparr>word = wordA, sessionCorrectCount = 0, totalAttempts = 0\<rparr>" child1 "''t1''" True]
    s1 c
  have 2: "\<exists>s' w t. handleAnswer child1 ''t1'' True start1 = (s', Some (w, t)) \<and> status w = Mastered"
    by auto
  from status_after_verdict [of start4 "''b''" "[]"
      "\<lparr>word = wordB, sessionCorrectCount = 0, totalAttempts = 0\<rparr>" child1 "''t1''" False]
    start4_eval c
  have 3: "\<exists>s' w t. handleAnswer child1 ''t1'' False start4 = (s', Some (w, t)) \<and> status w = Learning"
    by auto
  from status_after_verdict [of start4 "''b''" "[]"
      "\<lparr>word = wordB, sessionCorrectCount = 0, totalAttempts = 0\<rparr>" child2 "''t1''" False]
    start4_eval c
  have 4: "\<exists>s' w t. handleAnswer child2 ''t1'' False start4 = (s', Some (w, t)) \<and> status w = Mastered"
    by auto
  from 1 2 3 4 show ?thesis by blast
qed




lemma handleRestart_wordProgress:
  "wordProgress (handleRestart child childWords sh s) = wordProgress s"
  by (simp add: handleRestart_def)





section \<open>The listeners: proofs\<close>

lemma silent_deliver: "silent l \<Longrightarrow> deliver e l = []"
  by (cases l; cases e) (simp_all add: handleResult_def handleError_def handleEnd_def)

lemma silent_listen: "silent l \<Longrightarrow> listen as l = []"
proof (induction as arbitrary: l)
  case Nil
  show ?case by simp
next
  case (Cons a as)
  show ?case
  proof (cases a)
    case (Event e)
    with Cons show ?thesis by (simp add: silent_deliver)
  next
    case Stop
    from Cons.prems have "silent (stop l)" by (cases l) simp_all
    with Cons.IH Stop show ?thesis by simp
  next
    case (UpdateTargetWord w)
    from Cons.prems have "silent (updateTargetWord w l)" by (cases l) simp_all
    with Cons.IH UpdateTargetWord show ?thesis by simp
  qed
qed

text \<open>
  Claim C9. After \<^verbatim>\<open>stop\<close> on a handle, and so on the handle that \<open>startListening\<close> has
  returned, no sequence of result, error and end events, of further calls of \<^verbatim>\<open>stop\<close> and
  of \<^verbatim>\<open>updateTargetWord\<close> invokes \<^verbatim>\<open>onMatch\<close>, \<^verbatim>\<open>onNoMatch\<close>, \<^verbatim>\<open>onError\<close> or
  \<^verbatim>\<open>onEnd\<close>.
\<close>

theorem no_callback_after_stop:
  "listen as (stop l) = []
   \<and> listen as (stop (snd (startListening available startThrows targetWord))) = []"
proof -
  have "silent (stop l')" for l' by (cases l') simp_all
  then show ?thesis by (simp add: silent_listen)
qed

lemma announce_props:
  assumes "announce ms M = (cs, M')"
  shows "M \<subseteq> M' \<and> distinct (word_matches cs) \<and> set (word_matches cs) \<inter> M = {}
         \<and> set (word_matches cs) \<subseteq> M'"
  using assms
proof (induction ms arbitrary: M cs M')
  case Nil
  then show ?case by (simp add: word_matches_def map_filter_simps)
next
  case (Cons m ms)
  show ?case
  proof (cases "m_index m \<in> M")
    case True
    with Cons show ?thesis by simp
  next
    case False
    obtain cs1 M1 where a: "announce ms (insert (m_index m) M) = (cs1, M1)" by fastforce
    from Cons.IH [OF a] have ih: "insert (m_index m) M \<subseteq> M1" "distinct (word_matches cs1)"
      "set (word_matches cs1) \<inter> insert (m_index m) M = {}" "set (word_matches cs1) \<subseteq> M1"
      by auto
    from Cons.prems False a have "cs = OnWordMatch m # cs1" "M' = M1" by auto
    with ih False show ?thesis by (auto simp: word_matches_def map_filter_simps)
  qed
qed

lemma word_matches_append: "word_matches (xs @ ys) = word_matches xs @ word_matches ys"
  by (simp add: word_matches_def map_filter_def)

lemma handleResultC_props:
  assumes "handleResultC f c results = (cs, c')"
  shows "matchedIndices c \<subseteq> matchedIndices c' \<and> distinct (word_matches cs)
         \<and> set (word_matches cs) \<inter> matchedIndices c = {}
         \<and> set (word_matches cs) \<subseteq> matchedIndices c'"
proof -
  have triv: "matchedIndices c \<subseteq> matchedIndices c \<and> distinct (word_matches [])
         \<and> set (word_matches []) \<inter> matchedIndices c = {}
         \<and> set (word_matches []) \<subseteq> matchedIndices c"
    by (simp add: word_matches_def map_filter_simps)
  show ?thesis
  proof (cases "c_stopped c \<or> results = None \<or> results = Some []
      \<or> (\<exists>rs. results = Some rs \<and> alternatives (last rs) = [])")
    case True
    with assms have "cs = [] \<and> c' = c"
      by (auto simp: handleResultC_def Let_def split: option.splits list.splits if_splits)
    with triv show ?thesis by simp
  next
    case False
    then obtain rs first rest where r: "\<not> c_stopped c" "results = Some rs" "rs \<noteq> []"
      "alternatives (last rs) = first # rest"
      by (cases results; cases "alternatives (last (the results))") auto
    define tr where "tr = (case alt_transcript first of None \<Rightarrow> [] | Some t \<Rightarrow> t)"
    define cf where "cf = (case alt_confidence first of None \<Rightarrow> (0::rat) | Some x \<Rightarrow> x)"
    define am where "am = collect c tr cf (split_ws (toLowerCase tr))"
    define told where "told = (case f of Some g \<Rightarrow> if am \<noteq> [] then [OnAllMatches am] else []
                                | None \<Rightarrow> [])"
    define marked where "marked = (case f of Some g \<Rightarrow> if am \<noteq> [] then matchedIndices c \<union> set (g am)
                                      else matchedIndices c | None \<Rightarrow> matchedIndices c)"
    obtain said M where an: "announce am marked = (said, M)" by fastforce
    have "handleResultC f c results = (OnInterimResult tr # told @ said, c\<lparr>matchedIndices := M\<rparr>)"
      using r an
      by (auto simp: handleResultC_def Let_def tr_def cf_def am_def told_def marked_def
          split: option.splits)
    with assms have cs: "cs = OnInterimResult tr # told @ said" "c' = c\<lparr>matchedIndices := M\<rparr>"
      by simp_all
    have wm: "word_matches cs = word_matches said"
      by (auto simp: cs word_matches_def map_filter_simps map_filter_def told_def split: option.splits)
    have sub: "matchedIndices c \<subseteq> marked" by (auto simp: marked_def split: option.splits)
    from announce_props [OF an] sub show ?thesis
      unfolding wm cs(2) by auto
  qed
qed

lemma word_matches_other:
  "word_matches (handleErrorC c e) = []" "word_matches (handleEndC rt c) = []"
  "word_matches [] = []"
  by (simp_all add: word_matches_def map_filter_simps handleErrorC_def handleEndC_def)

lemma cstep_props:
  assumes "cstep f a l = (cs, l')" "\<not> is_update a"
  shows "matched_of l \<subseteq> matched_of l' \<and> distinct (word_matches cs)
         \<and> set (word_matches cs) \<inter> matched_of l = {}
         \<and> set (word_matches cs) \<subseteq> matched_of l'"
proof (cases l)
  case CInert
  with assms show ?thesis by (auto simp: word_matches_def map_filter_simps)
next
  case (CListening c)
  show ?thesis
  proof (cases a)
    case (CEvent e rt)
    show ?thesis
    proof (cases e)
      case (Result results)
      obtain cs1 c1 where h: "handleResultC f c results = (cs1, c1)" by fastforce
      with assms CListening CEvent Result have "cs = cs1" "l' = CListening c1" by auto
      with handleResultC_props [OF h] CListening show ?thesis by simp
    next
      case (Error x)
      with assms CListening CEvent show ?thesis
        by (auto simp: word_matches_other)
    next
      case End
      with assms CListening CEvent show ?thesis
        by (auto simp: word_matches_other)
    qed
  next
    case CStop
    with assms CListening show ?thesis by (auto simp: word_matches_def map_filter_simps)
  next
    case (UpdateTargetWords ws)
    with assms show ?thesis by simp
  next
    case (MarkWordMatched i)
    with assms CListening show ?thesis by (auto simp: word_matches_def map_filter_simps)
  qed
qed

lemma clisten_props:
  assumes "\<forall>a\<in>set as. \<not> is_update a"
  shows "distinct (word_matches (clisten f as l))
         \<and> set (word_matches (clisten f as l)) \<inter> matched_of l = {}"
  using assms
proof (induction as arbitrary: l)
  case Nil
  show ?case by (simp add: word_matches_def map_filter_simps)
next
  case (Cons a as)
  obtain cs l' where st: "cstep f a l = (cs, l')" by fastforce
  from Cons.prems have na: "\<not> is_update a" and nas: "\<forall>a\<in>set as. \<not> is_update a" by simp_all
  from cstep_props [OF st na] have p: "matched_of l \<subseteq> matched_of l'" "distinct (word_matches cs)"
    "set (word_matches cs) \<inter> matched_of l = {}" "set (word_matches cs) \<subseteq> matched_of l'"
    by simp_all
  from Cons.IH [OF nas, of l'] have ih: "distinct (word_matches (clisten f as l'))"
    "set (word_matches (clisten f as l')) \<inter> matched_of l' = {}" by simp_all
  have "clisten f (a # as) l = cs @ clisten f as l'" using st by simp
  then show ?case using p ih by (auto simp: word_matches_append)
qed

theorem no_callback_after_stop_witness:
  "listen [Event (heard ''the cat'')] listening_cat
     = [OnMatch \<lparr>r_transcript = ''the cat'', r_confidence = 1, r_isMatch = True\<rparr>]
   \<and> listen [Event End, Event (Error None)] listening_cat = [OnEnd, OnError ''Recognition error'']
   \<and> listen [Event (heard ''the cat''), Event End, Event (Error None)] (stop listening_cat) = []"
proof -
  have m: "checkWordMatch ''the cat'' ''cat''" by code_simp
  have 1: "listen [Event (heard ''the cat'')] listening_cat
     = [OnMatch \<lparr>r_transcript = ''the cat'', r_confidence = 1, r_isMatch = True\<rparr>]"
    by (simp add: listening_cat_def startListening_def heard_def handleResult_def m)
  have 2: "listen [Event End, Event (Error None)] listening_cat = [OnEnd, OnError ''Recognition error'']"
    by (simp add: listening_cat_def startListening_def handleEnd_def handleError_def)
  from no_callback_after_stop [of "[Event (heard ''the cat''), Event End, Event (Error None)]" listening_cat]
  have 3: "listen [Event (heard ''the cat''), Event End, Event (Error None)] (stop listening_cat) = []"
    by simp
  from 1 2 3 show ?thesis by simp
qed

text \<open>
  Claim C10. Along any sequence of events and calls that has no call of
  \<^verbatim>\<open>updateTargetWords\<close>, \<^verbatim>\<open>onWordMatch\<close> is invoked at most once for an index and never
  for an index that is in the matched set at the beginning; such a step never takes an
  index out of the matched set; \<^verbatim>\<open>updateTargetWords\<close> empties the set, as it is empty
  when listening starts.
\<close>

theorem word_matched_once:
  "((\<forall>a\<in>set as. \<not> is_update a) \<longrightarrow>
      distinct (word_matches (clisten onAllMatches as l))
      \<and> set (word_matches (clisten onAllMatches as l)) \<inter> matched_of l = {})
   \<and> (\<not> is_update a \<longrightarrow> matched_of l \<subseteq> matched_of (snd (cstep onAllMatches a l)))
   \<and> matched_of (snd (cstep onAllMatches (UpdateTargetWords ws) l)) = {}
   \<and> matched_of (snd (startContinuousListening available startThrows targetWords)) = {}"
proof (intro conjI impI)
  assume "\<forall>a\<in>set as. \<not> is_update a"
  from clisten_props [OF this]
  show "distinct (word_matches (clisten onAllMatches as l))"
    and "set (word_matches (clisten onAllMatches as l)) \<inter> matched_of l = {}"
    by simp_all
next
  assume "\<not> is_update a"
  with cstep_props [of onAllMatches a l "fst (cstep onAllMatches a l)" "snd (cstep onAllMatches a l)"]
  show "matched_of l \<subseteq> matched_of (snd (cstep onAllMatches a l))" by simp
next
  show "matched_of (snd (cstep onAllMatches (UpdateTargetWords ws) l)) = {}"
    by (cases l) simp_all
  show "matched_of (snd (startContinuousListening available startThrows targetWords)) = {}"
    by (simp add: startContinuousListening_def split: option.splits)
qed

lemma heard_cat:
  "split_ws (toLowerCase ''cat'') = [''cat'']" "checkWordMatch ''cat'' ''cat''"
  "\<not> checkWordMatch ''cat'' ''dog''"
  by code_simp+

lemmas listen_eval = listening_pets_def startContinuousListening_def heard_def handleResultC_def
  collect_def enumerate_eq_zip word_matches_def map_filter_simps heard_cat Let_def

lemma pets_once:
  "word_matches (clisten None [CEvent (heard ''cat'') False, CEvent (heard ''cat'') False]
      listening_pets) = [0]"
  by (simp add: listen_eval)

lemma pets_again:
  "word_matches (clisten None [CEvent (heard ''cat'') False, UpdateTargetWords [''cat''],
      CEvent (heard ''cat'') False] listening_pets) = [0, 0]"
  by (simp add: listen_eval)

theorem word_matched_once_witness:
  "word_matches (clisten None [CEvent (heard ''cat'') False, CEvent (heard ''cat'') False]
      listening_pets) = [0]
   \<and> distinct (word_matches (clisten None
        [CEvent (heard ''cat'') False, CEvent (heard ''cat'') False] listening_pets))
   \<and> word_matches (clisten None [CEvent (heard ''cat'') False, UpdateTargetWords [''cat''],
      CEvent (heard ''cat'') False] listening_pets) = [0, 0]"
proof -
  have "\<forall>a\<in>set [CEvent (heard ''cat'') False, CEvent (heard ''cat'') False]. \<not> is_update a"
    by simp
  with word_matched_once [where as = "[CEvent (heard ''cat'') False, CEvent (heard ''cat'') False]"
      and onAllMatches = None and l = listening_pets]
  have "distinct (word_matches (clisten None
        [CEvent (heard ''cat'') False, CEvent (heard ''cat'') False] listening_pets))"
    by blast
  with pets_once pets_again show ?thesis by simp
qed

end
